theory Spec2Isabelle
  imports Main
begin

section \<open>extractTIABs: title and abstract texts from PubMed citations\<close>

text \<open>
  A shallow embedding of \<^verbatim>\<open>src/tools/extractTIABs.py\<close> (Python 2): the body of the
  loop of \<^verbatim>\<open>process\<close>, which handles one \<^verbatim>\<open>MedlineCitation\<close> element at a time, and
  the loop itself. Exceptions are values of the type \<open>error\<close>; the two global counters,
  the files written and the lines printed on the error stream are the fields of an
  explicit run state. The input of the model is the sequence of \<^verbatim>\<open>MedlineCitation\<close>
  elements that \<^verbatim>\<open>iterparse\<close> completes, in document order; the output directory of
  the package (lines 68--75: the match on the file name, \<^verbatim>\<open>os.path.join\<close> and
  \<^verbatim>\<open>os.mkdir\<close>) is a parameter.
\<close>

subsection \<open>Text\<close>

text \<open>
  A Python string is modelled by its code points. ElementTree returns a \<^verbatim>\<open>str\<close> for
  text that is all ASCII and a \<^verbatim>\<open>unicode\<close> object otherwise, so the kind of a string
  is a property of its code points. The two kinds differ in what \<^verbatim>\<open>strip\<close> and
  \<^verbatim>\<open>int\<close> take for white space and digits: a \<^verbatim>\<open>str\<close> is read with C's
  \<^verbatim>\<open>isspace\<close> and the ASCII digits, a \<^verbatim>\<open>unicode\<close> object with the interpreter's
  Unicode database.
\<close>

type_synonym pytext = "nat list"

definition ascii :: "string \<Rightarrow> pytext" where
  "ascii s = map of_char s"

definition is_str :: "pytext \<Rightarrow> bool" where
  "is_str s = list_all (\<lambda>c. c < 128) s"

text \<open>
  The interpreter's Unicode database, a parameter of the model:
  \<^verbatim>\<open>Py_UNICODE_ISSPACE\<close> and \<^verbatim>\<open>Py_UNICODE_TODECIMAL\<close> (\<open>None\<close> for a character that is
  not a decimal digit).
\<close>

record unicode_db =
  unicode_isspace :: "nat \<Rightarrow> bool"
  unicode_todecimal :: "nat \<Rightarrow> nat option"

text \<open>C's \<^verbatim>\<open>isspace\<close> and \<^verbatim>\<open>isdigit\<close> in the C locale.\<close>

definition isspace :: "nat \<Rightarrow> bool" where
  "isspace c = (c \<in> {0x20, 0x09, 0x0A, 0x0B, 0x0C, 0x0D})"

definition isdigit :: "nat \<Rightarrow> bool" where
  "isdigit c = (c \<in> {0x30, 0x31, 0x32, 0x33, 0x34, 0x35, 0x36, 0x37, 0x38, 0x39})"

text \<open>The white space of \<^verbatim>\<open>s.strip()\<close>, by the kind of \<open>s\<close>.\<close>

definition whitespace :: "unicode_db \<Rightarrow> pytext \<Rightarrow> nat \<Rightarrow> bool" where
  "whitespace db s c = (if is_str s then isspace c else unicode_isspace db c)"

definition strip :: "unicode_db \<Rightarrow> pytext \<Rightarrow> pytext" where
  "strip db s = rev (dropWhile (whitespace db s) (rev (dropWhile (whitespace db s) s)))"

definition NL :: pytext where
  "NL = [0x0A]"

text \<open>\<^verbatim>\<open>sep.join(xs)\<close>\<close>

fun join :: "pytext \<Rightarrow> pytext list \<Rightarrow> pytext" where
  "join sep [] = []"
| "join sep [x] = x"
| "join sep (x # y # ys) = x @ sep @ join sep (y # ys)"

text \<open>\<^verbatim>\<open>os.path.join(a, b)\<close> of posixpath.\<close>

definition path_join :: "pytext \<Rightarrow> pytext \<Rightarrow> pytext" where
  "path_join a b =
     (if take 1 b = ascii ''/'' then b
      else if a = [] then b
      else if last a = 0x2F then a @ b
      else a @ ascii ''/'' @ b)"

text \<open>
  \<^verbatim>\<open>s.encode("UTF-8")\<close>: the bytes written to the file. For a \<^verbatim>\<open>str\<close> these are
  its own bytes.
\<close>

definition utf8 :: "nat \<Rightarrow> string" where
  "utf8 c =
     (if c < 0x80 then [char_of c]
      else if c < 0x800 then [char_of (0xC0 + c div 0x40), char_of (0x80 + c mod 0x40)]
      else if c < 0x10000 then
        [char_of (0xE0 + c div 0x1000), char_of (0x80 + c div 0x40 mod 0x40),
         char_of (0x80 + c mod 0x40)]
      else
        [char_of (0xF0 + c div 0x40000 mod 8), char_of (0x80 + c div 0x1000 mod 0x40),
         char_of (0x80 + c div 0x40 mod 0x40), char_of (0x80 + c mod 0x40)])"

definition encode_utf8 :: "pytext \<Rightarrow> string" where
  "encode_utf8 s = concat (map utf8 s)"

subsection \<open>Elements\<close>

text \<open>
  An ElementTree element: tag, attribute dictionary, the text before the first child
  (\<^verbatim>\<open>None\<close> when there is none) and the children in document order. Tags and attribute
  names are only compared with literals.
\<close>

datatype element =
  Element (tag: string) (attrib: "string \<rightharpoonup> pytext") (text_of: "pytext option")
    (children: "element list")

text \<open>\<^verbatim>\<open>e.findall(t)\<close> with a plain tag: the direct children with that tag, in order.\<close>

definition findall :: "string \<Rightarrow> element \<Rightarrow> element list" where
  "findall t e = filter (\<lambda>c. tag c = t) (children e)"

subsection \<open>Options, errors, messages and the run state\<close>

record options =
  output_dir :: pytext
  PMID_greater_than :: "int option"
  PMID_lower_than :: "int option"
  single_line_abstract :: bool
  verbose :: bool

text \<open>
  The message of a failed \<^verbatim>\<open>assert\<close>, as the format and its arguments
  (\<^verbatim>\<open>%s\<close> of a text that is \<^verbatim>\<open>None\<close> prints \<^verbatim>\<open>None\<close>).
\<close>

datatype assert_message =
  Expected_1_PMID nat
  | Articles_for_PMID nat "pytext option"
  | Abstract_texts_for_PMID nat "pytext option"
  | Unexpected_characters_in_PMID pytext

text \<open>UnicodeEncodeError is the ValueError that \<^verbatim>\<open>int\<close> raises on a \<^verbatim>\<open>unicode\<close> object
  with a character it cannot read.\<close>

datatype error =
  AssertionError assert_message
  | TypeError
  | ValueError
  | UnicodeEncodeError
  | AttributeError

text \<open>
  What \<^verbatim>\<open>print >> sys.stderr\<close> writes, one constructor per print statement with the
  text it is formatted with. The error stream is taken to accept every text.
\<close>

datatype message =
  Note_skipping
  | Note_skipping_end
  | Note_other_abstracts nat "pytext option"
  | Note_multiple_AbstractTexts "pytext option"
  | Note_skipping_UNLABELLED "pytext option"
  | Warning_missing_Label "pytext option"
  | Note_empty_text "pytext option"
  | No_abstract pytext

text \<open>Files are kept by path, with the bytes written to them.\<close>

record run_state =
  output_count :: nat
  skipped_count :: nat
  files :: "pytext \<rightharpoonup> string"
  stderr :: "message list"

definition print_stderr :: "message list \<Rightarrow> run_state \<Rightarrow> run_state" where
  "print_stderr ms st = st\<lparr>stderr := stderr st @ ms\<rparr>"

subsection \<open>Conversion to an integer\<close>

text \<open>The value of a string of ASCII decimal digits.\<close>

definition decimal :: "pytext \<Rightarrow> int" where
  "decimal ds = foldl (\<lambda>n c. 10 * n + (int c - 48)) 0 ds"

text \<open>
  \<^verbatim>\<open>PyInt_FromString\<close> in base 10 on a buffer of bytes: white space, an optional
  sign, white space again (Python 2 allows it after the sign), one or more digits and
  white space; anything else is a ValueError.
\<close>

definition int_from_string :: "pytext \<Rightarrow> error + int" where
  "int_from_string s =
     (let s1 = dropWhile isspace s;
          neg = (take 1 s1 = ascii ''-'');
          s2 = (if take 1 s1 = ascii ''-'' then drop 1 s1
                else if take 1 s1 = ascii ''+'' then drop 1 s1 else s1);
          s3 = dropWhile isspace s2;
          ds = takeWhile isdigit s3;
          rest = dropWhile isspace (dropWhile isdigit s3)
      in if ds = [] then Inl ValueError
         else if rest = [] then Inr (if neg then - decimal ds else decimal ds)
         else Inl ValueError)"

text \<open>
  \<^verbatim>\<open>PyUnicode_EncodeDecimal\<close>, which \<^verbatim>\<open>int\<close> applies to a \<^verbatim>\<open>unicode\<close> object
  first: white space becomes a space, a decimal digit its ASCII digit, another
  character below 256 stays, and any other character is an error.
\<close>

definition encode_decimal_char :: "unicode_db \<Rightarrow> nat \<Rightarrow> nat option" where
  "encode_decimal_char db c =
     (if unicode_isspace db c then Some 0x20
      else case unicode_todecimal db c of
             Some d \<Rightarrow> Some (0x30 + d)
           | None \<Rightarrow> if 0 < c \<and> c < 256 then Some c else None)"

fun encode_decimal :: "unicode_db \<Rightarrow> pytext \<Rightarrow> pytext option" where
  "encode_decimal db [] = Some []"
| "encode_decimal db (c # cs) =
     (case encode_decimal_char db c of
        None \<Rightarrow> None
      | Some b \<Rightarrow> (case encode_decimal db cs of None \<Rightarrow> None | Some bs \<Rightarrow> Some (b # bs)))"

text \<open>\<^verbatim>\<open>int(t)\<close> for an element's text: \<^verbatim>\<open>None\<close> is a TypeError.\<close>

definition py_int :: "unicode_db \<Rightarrow> pytext option \<Rightarrow> error + int" where
  "py_int db t =
     (case t of
        None \<Rightarrow> Inl TypeError
      | Some s \<Rightarrow>
          if is_str s then int_from_string s
          else (case encode_decimal db s of
                  None \<Rightarrow> Inl UnicodeEncodeError
                | Some buffer \<Rightarrow> int_from_string buffer))"

text \<open>
  \<^verbatim>\<open>re.match(r'^\d+$', s)\<close>: one or more ASCII digits (the pattern has no
  \<^verbatim>\<open>re.UNICODE\<close> flag) up to the end of the string, or up to a newline that ends it
  (\<^verbatim>\<open>$\<close> also matches there).
\<close>

definition match_digits :: "pytext \<Rightarrow> bool" where
  "match_digits s =
     (let ds = takeWhile isdigit s; rest = dropWhile isdigit s
      in if ds = [] then False else (rest = [] \<or> rest = NL))"

subsection \<open>The range filter (lines 96--112)\<close>

text \<open>
  The condition of the \<^verbatim>\<open>if\<close>: \<^verbatim>\<open>int(PMID.text)\<close> is evaluated for each bound
  that is configured, the upper bound's only when the lower bound's test is false.
\<close>

definition out_of_range :: "unicode_db \<Rightarrow> options \<Rightarrow> pytext option \<Rightarrow> error + bool" where
  "out_of_range db opts pmid_text =
     (let upper =
        (case PMID_lower_than opts of
           None \<Rightarrow> Inr False
         | Some lt \<Rightarrow>
             (case py_int db pmid_text of Inl e \<Rightarrow> Inl e | Inr i \<Rightarrow> Inr (i \<ge> lt)))
      in case PMID_greater_than opts of
           None \<Rightarrow> upper
         | Some gt \<Rightarrow>
             (case py_int db pmid_text of
                Inl e \<Rightarrow> Inl e
              | Inr i \<Rightarrow> if i \<le> gt then Inr True else upper))"

text \<open>
  The arguments of a \<^verbatim>\<open>%\<close> format, and a format with the single conversion
  \<^verbatim>\<open>%d\<close>: it takes exactly one argument, a number.
\<close>

datatype pyval = PyNone | PyStr pytext | PyInt int

definition text_value :: "pytext option \<Rightarrow> pyval" where
  "text_value t = (case t of None \<Rightarrow> PyNone | Some s \<Rightarrow> PyStr s)"

fun format_d :: "pyval list \<Rightarrow> error + int" where
  "format_d [PyInt i] = Inr i"
| "format_d args = Inl TypeError"

text \<open>
  The verbose note of a skipped citation (lines 102--108). Both limit formats are given
  the tuple \<^verbatim>\<open>(PMID.text, limit)\<close>.
\<close>

definition limit_note :: "pytext option \<Rightarrow> int option \<Rightarrow> error + unit" where
  "limit_note pmid_text limit =
     (case limit of
        None \<Rightarrow> Inr ()
      | Some l \<Rightarrow>
          (case format_d [text_value pmid_text, PyInt l] of
             Inl e \<Rightarrow> Inl e
           | Inr _ \<Rightarrow> Inr ()))"

definition skip_notes :: "options \<Rightarrow> pytext option \<Rightarrow> message list \<times> (error + unit)" where
  "skip_notes opts pmid_text =
     (if verbose opts then
        (case limit_note pmid_text (PMID_greater_than opts) of
           Inl e \<Rightarrow> ([Note_skipping], Inl e)
         | Inr _ \<Rightarrow>
             (case limit_note pmid_text (PMID_lower_than opts) of
                Inl e \<Rightarrow> ([Note_skipping], Inl e)
              | Inr _ \<Rightarrow> ([Note_skipping, Note_skipping_end], Inr ())))
      else ([], Inr ()))"

subsection \<open>Choosing the abstract (lines 124--140)\<close>

text \<open>
  The message of the assertion on the number of \<^verbatim>\<open>Abstract\<close> children calls
  \<^verbatim>\<open>len\<close> with two arguments, so a failed assertion raises TypeError while its
  message is built.
\<close>

definition choose_abstract ::
  "options \<Rightarrow> element \<Rightarrow> element \<Rightarrow> pytext option \<Rightarrow> message list \<times> (error + element option)"
where
  "choose_abstract opts citation article pmid_text =
     (case findall ''Abstract'' article of
        [] \<Rightarrow>
          (let otherAbstracts = findall ''OtherAbstract'' citation
           in (if length otherAbstracts > 1 \<and> verbose opts
               then [Note_other_abstracts (length otherAbstracts) pmid_text] else [],
               Inr (case otherAbstracts of [] \<Rightarrow> None | oa # _ \<Rightarrow> Some oa)))
      | [abstract] \<Rightarrow> ([], Inr (Some abstract))
      | _ \<Rightarrow> ([], Inl TypeError))"

subsection \<open>Assembling the abstract text (lines 142--192)\<close>

text \<open>\<^verbatim>\<open>t is None or t.strip() == ""\<close>\<close>

definition blank :: "unicode_db \<Rightarrow> pytext option \<Rightarrow> bool" where
  "blank db t = (case t of None \<Rightarrow> True | Some s \<Rightarrow> strip db s = [])"

definition SEP :: "options \<Rightarrow> pytext" where
  "SEP opts = (if single_line_abstract opts then ascii '' '' else NL)"

text \<open>
  One round of the loop over the \<^verbatim>\<open>AbstractText\<close> elements of a structured
  abstract: the messages printed, and the text appended to \<^verbatim>\<open>sectionTexts\<close>
  (\<open>None\<close> for \<^verbatim>\<open>continue\<close>).
\<close>

definition section_text ::
  "unicode_db \<Rightarrow> options \<Rightarrow> pytext option \<Rightarrow> element \<Rightarrow> message list \<times> pytext option"
where
  "section_text db opts pmid_text at =
     (if blank db (text_of at)
         \<and> (case attrib at ''Label'' of None \<Rightarrow> [] | Some l \<Rightarrow> l) = ascii ''UNLABELLED''
      then (if verbose opts then [Note_skipping_UNLABELLED pmid_text] else [], None)
      else
        (let (ms1, t) =
               (case attrib at ''Label'' of
                  Some l \<Rightarrow> ([], l @ ascii '':'')
                | None \<Rightarrow> ([Warning_missing_Label pmid_text], []));
             (ms2, t') =
               (case text_of at of
                  None \<Rightarrow> ([Note_empty_text pmid_text], t)
                | Some body \<Rightarrow>
                    if strip db body = [] then ([Note_empty_text pmid_text], t)
                    else ([], t @ SEP opts @ body))
         in (ms1 @ ms2, Some t')))"

fun section_loop ::
  "unicode_db \<Rightarrow> options \<Rightarrow> pytext option \<Rightarrow> element list \<Rightarrow> message list \<times> pytext list
     \<Rightarrow> message list \<times> pytext list"
where
  "section_loop db opts pmid_text [] acc = acc"
| "section_loop db opts pmid_text (at # ats) (ms, sectionTexts) =
     (case section_text db opts pmid_text at of
        (ms', None) \<Rightarrow> section_loop db opts pmid_text ats (ms @ ms', sectionTexts)
      | (ms', Some t) \<Rightarrow> section_loop db opts pmid_text ats (ms @ ms', sectionTexts @ [t]))"

text \<open>
  \<^verbatim>\<open>textAbstract\<close> for the chosen abstract: \<^verbatim>\<open>""\<close> without one, the text of a
  single \<^verbatim>\<open>AbstractText\<close> (possibly \<^verbatim>\<open>None\<close>), the joined section texts otherwise.
\<close>

definition abstract_text ::
  "unicode_db \<Rightarrow> options \<Rightarrow> pytext option \<Rightarrow> element option
     \<Rightarrow> message list \<times> (error + pytext option)"
where
  "abstract_text db opts pmid_text abstract =
     (case abstract of
        None \<Rightarrow> ([], Inr (Some []))
      | Some a \<Rightarrow>
          (case findall ''AbstractText'' a of
             [] \<Rightarrow> ([], Inl (AssertionError (Abstract_texts_for_PMID 0 pmid_text)))
           | [abstractText] \<Rightarrow> ([], Inr (text_of abstractText))
           | abstractTexts \<Rightarrow>
               (case section_loop db opts pmid_text abstractTexts
                       (if verbose opts then [Note_multiple_AbstractTexts pmid_text] else [], []) of
                  (ms, sectionTexts) \<Rightarrow> (ms, Inr (Some (join (SEP opts) sectionTexts))))))"

subsection \<open>Writing the file (lines 194--212)\<close>

text \<open>
  \<^verbatim>\<open>re.match\<close> on a text that is \<^verbatim>\<open>None\<close> is a TypeError. \<^verbatim>\<open>open\<close> creates the
  file before the title is encoded, so a title without text leaves an empty file behind
  the AttributeError. \<^verbatim>\<open>print >> out, x\<close> writes \<^verbatim>\<open>x\<close> and a newline.
\<close>

definition emit ::
  "options \<Rightarrow> pytext \<Rightarrow> pytext option \<Rightarrow> pytext option \<Rightarrow> pytext option \<Rightarrow> run_state
     \<Rightarrow> error option \<times> run_state"
where
  "emit opts outputDir textPMID textTitle textAbstract st =
     (case textPMID of
        None \<Rightarrow> (Some TypeError, st)
      | Some p \<Rightarrow>
          if match_digits p then
            (let outputFile = path_join outputDir (p @ ascii ''.txt'');
                 opened = st\<lparr>files := (files st)(outputFile \<mapsto> [])\<rparr>
             in case textTitle of
                  None \<Rightarrow> (Some AttributeError, opened)
                | Some title \<Rightarrow>
                    (let nonempty = (case textAbstract of None \<Rightarrow> False | Some a \<Rightarrow> a \<noteq> []);
                         content = encode_utf8 title @ [CHR 0x0A] @
                           (case textAbstract of
                              None \<Rightarrow> []
                            | Some a \<Rightarrow> if a = [] then [] else encode_utf8 a @ [CHR 0x0A]);
                         ms = (if nonempty then [] else if verbose opts then [No_abstract p] else [])
                     in (None,
                         st\<lparr>files := (files st)(outputFile \<mapsto> content),
                            stderr := stderr st @ ms,
                            output_count := output_count st + 1\<rparr>)))
          else (Some (AssertionError (Unexpected_characters_in_PMID p)), st))"

subsection \<open>One citation, and the loop over the citations of a file\<close>

text \<open>
  The body of the loop for a \<^verbatim>\<open>MedlineCitation\<close> end event (lines 89--215). The
  result is the exception raised, if any, and the state reached. The message of the
  assertion on the number of \<^verbatim>\<open>ArticleTitle\<close> children calls \<^verbatim>\<open>len\<close> with two
  arguments, as the one on \<^verbatim>\<open>Abstract\<close> does.
\<close>

definition process_citation ::
  "unicode_db \<Rightarrow> options \<Rightarrow> pytext \<Rightarrow> element \<Rightarrow> run_state \<Rightarrow> error option \<times> run_state"
where
  "process_citation db opts outputDir citation st =
     (case findall ''PMID'' citation of
        [PMID] \<Rightarrow>
          (case out_of_range db opts (text_of PMID) of
             Inl e \<Rightarrow> (Some e, st)
           | Inr True \<Rightarrow>
               (case skip_notes opts (text_of PMID) of
                  (ms, Inl e) \<Rightarrow> (Some e, print_stderr ms st)
                | (ms, Inr _) \<Rightarrow> (None, (print_stderr ms st)\<lparr>skipped_count := skipped_count st + 1\<rparr>))
           | Inr False \<Rightarrow>
               (case findall ''Article'' citation of
                  [article] \<Rightarrow>
                    (case findall ''ArticleTitle'' article of
                       [articleTitle] \<Rightarrow>
                         (case choose_abstract opts citation article (text_of PMID) of
                            (ms1, Inl e) \<Rightarrow> (Some e, print_stderr ms1 st)
                          | (ms1, Inr abstract) \<Rightarrow>
                              (case abstract_text db opts (text_of PMID) abstract of
                                 (ms2, Inl e) \<Rightarrow> (Some e, print_stderr (ms1 @ ms2) st)
                               | (ms2, Inr textAbstract) \<Rightarrow>
                                   emit opts outputDir (text_of PMID) (text_of articleTitle)
                                     textAbstract (print_stderr (ms1 @ ms2) st)))
                     | _ \<Rightarrow> (Some TypeError, st))
                | articles \<Rightarrow>
                    (Some (AssertionError (Articles_for_PMID (length articles) (text_of PMID))), st)))
      | PMIDs \<Rightarrow> (Some (AssertionError (Expected_1_PMID (length PMIDs))), st))"

text \<open>
  The \<^verbatim>\<open>for\<close> loop over the citations of one input file, in document order: an
  exception leaves the loop (and the program) with the state reached so far.
\<close>

fun process_citations ::
  "unicode_db \<Rightarrow> options \<Rightarrow> pytext \<Rightarrow> element list \<Rightarrow> run_state \<Rightarrow> error option \<times> run_state"
where
  "process_citations db opts outputDir [] st = (None, st)"
| "process_citations db opts outputDir (citation # rest) st =
     (case process_citation db opts outputDir citation st of
        (Some e, st') \<Rightarrow> (Some e, st')
      | (None, st') \<Rightarrow> process_citations db opts outputDir rest st')"

subsection \<open>Sample data\<close>

text \<open>
  A Unicode database for the examples: the white space of Python 2.7, and of the decimal
  digits the ASCII, Arabic-Indic and fullwidth ones. The theorems below hold for every
  database.
\<close>

definition sample_db :: unicode_db where
  "sample_db =
     \<lparr>unicode_isspace = (\<lambda>c.
        (0x09 \<le> c \<and> c \<le> 0x0D) \<or> (0x1C \<le> c \<and> c \<le> 0x20) \<or> c = 0x85 \<or> c = 0xA0
        \<or> c = 0x1680 \<or> c = 0x180E \<or> (0x2000 \<le> c \<and> c \<le> 0x200A) \<or> c = 0x2028
        \<or> c = 0x2029 \<or> c = 0x202F \<or> c = 0x205F \<or> c = 0x3000),
      unicode_todecimal = (\<lambda>c.
        if 0x30 \<le> c \<and> c \<le> 0x39 then Some (c - 0x30)
        else if 0x660 \<le> c \<and> c \<le> 0x669 then Some (c - 0x660)
        else if 0xFF10 \<le> c \<and> c \<le> 0xFF19 then Some (c - 0xFF10)
        else None)\<rparr>"

text \<open>
  The defaults of the argument parser (lines 54--58), the counters at the start of a run
  (line 48), and constructors for elements with ASCII text.
\<close>

definition default_options :: options where
  "default_options =
     \<lparr>output_dir = ascii ''texts'', PMID_greater_than = None, PMID_lower_than = None,
      single_line_abstract = False, verbose = False\<rparr>"

definition initial_state :: run_state where
  "initial_state = \<lparr>output_count = 0, skipped_count = 0, files = Map.empty, stderr = []\<rparr>"

definition labelled :: "string \<Rightarrow> string option \<Rightarrow> element" where
  "labelled l b = Element ''AbstractText'' [''Label'' \<mapsto> ascii l] (map_option ascii b) []"

definition node :: "string \<Rightarrow> string option \<Rightarrow> element list \<Rightarrow> element" where
  "node t x cs = Element t Map.empty (map_option ascii x) cs"

section \<open>Properties\<close>

subsection \<open>Auxiliary facts\<close>

lemma list_all_dropWhile: "list_all P (dropWhile P s) = list_all P s"
  by (induction s) simp_all

lemma strip_empty_iff: "strip db s = [] \<longleftrightarrow> list_all (whitespace db s) s"
proof -
  have "strip db s = [] \<longleftrightarrow>
          list_all (whitespace db s) (rev (dropWhile (whitespace db s) s))"
    by (simp add: strip_def dropWhile_eq_Nil_conv list_all_iff)
  then show ?thesis
    by (simp add: list_all_dropWhile)
qed

lemma blank_iff:
  "blank db t \<longleftrightarrow> (case t of None \<Rightarrow> True | Some s \<Rightarrow> list_all (whitespace db s) s)"
  by (simp add: blank_def strip_empty_iff split: option.splits)

lemma section_loop_acc:
  "section_loop db opts p ats (ms, ts) =
     (ms @ fst (section_loop db opts p ats ([], [])), ts @ snd (section_loop db opts p ats ([], [])))"
proof (induction ats arbitrary: ms ts)
  case Nil
  show ?case by simp
next
  case (Cons at ats)
  obtain ms' r where st: "section_text db opts p at = (ms', r)"
    by (cases "section_text db opts p at")
  show ?case
  proof (cases r)
    case None
    have "section_loop db opts p (at # ats) (ms, ts) = section_loop db opts p ats (ms @ ms', ts)"
      using st None by simp
    also have "\<dots> = ((ms @ ms') @ fst (section_loop db opts p ats ([], [])),
                     ts @ snd (section_loop db opts p ats ([], [])))"
      by (rule Cons.IH)
    finally have l: "section_loop db opts p (at # ats) (ms, ts) =
        ((ms @ ms') @ fst (section_loop db opts p ats ([], [])),
         ts @ snd (section_loop db opts p ats ([], [])))" .
    have "section_loop db opts p (at # ats) ([], []) = section_loop db opts p ats (ms', [])"
      using st None by simp
    also have "\<dots> = (ms' @ fst (section_loop db opts p ats ([], [])),
                     [] @ snd (section_loop db opts p ats ([], [])))"
      by (rule Cons.IH)
    finally have r: "section_loop db opts p (at # ats) ([], []) =
        (ms' @ fst (section_loop db opts p ats ([], [])), snd (section_loop db opts p ats ([], [])))"
      by simp
    show ?thesis unfolding l r by simp
  next
    case (Some t)
    have "section_loop db opts p (at # ats) (ms, ts) = section_loop db opts p ats (ms @ ms', ts @ [t])"
      using st Some by simp
    also have "\<dots> = ((ms @ ms') @ fst (section_loop db opts p ats ([], [])),
                     (ts @ [t]) @ snd (section_loop db opts p ats ([], [])))"
      by (rule Cons.IH)
    finally have l: "section_loop db opts p (at # ats) (ms, ts) =
        ((ms @ ms') @ fst (section_loop db opts p ats ([], [])),
         (ts @ [t]) @ snd (section_loop db opts p ats ([], [])))" .
    have "section_loop db opts p (at # ats) ([], []) = section_loop db opts p ats (ms', [t])"
      using st Some by simp
    also have "\<dots> = (ms' @ fst (section_loop db opts p ats ([], [])),
                     [t] @ snd (section_loop db opts p ats ([], [])))"
      by (rule Cons.IH)
    finally have r: "section_loop db opts p (at # ats) ([], []) =
        (ms' @ fst (section_loop db opts p ats ([], [])), t # snd (section_loop db opts p ats ([], [])))"
      by simp
    show ?thesis unfolding l r by simp
  qed
qed

lemma section_loop_append:
  "section_loop db opts p (xs @ ys) acc = section_loop db opts p ys (section_loop db opts p xs acc)"
proof (induction xs arbitrary: acc)
  case Nil
  show ?case by simp
next
  case (Cons x xs)
  obtain ms ts where acc: "acc = (ms, ts)" by (cases acc)
  show ?case
    unfolding acc by (simp add: Cons.IH split: prod.splits option.splits)
qed

lemma section_text_labelled:
  assumes "attrib at ''Label'' = Some l" "text_of at = Some b" "strip db b \<noteq> []"
  shows "section_text db opts p at = ([], Some (l @ ascii '':'' @ SEP opts @ b))"
  using assms by (simp add: section_text_def blank_def)

lemma section_loop_labelled:
  assumes "list_all2 (\<lambda>at (l, b). attrib at ''Label'' = Some l \<and> text_of at = Some b \<and> strip db b \<noteq> []) ats lbs"
  shows "section_loop db opts p ats (ms, ts) = (ms, ts @ map (\<lambda>(l, b). l @ ascii '':'' @ SEP opts @ b) lbs)"
  using assms
proof (induction ats lbs arbitrary: ts rule: list_all2_induct)
  case Nil
  show ?case by simp
next
  case (Cons at ats lb lbs)
  obtain l b where lb: "lb = (l, b)" by (cases lb)
  have "section_text db opts p at = ([], Some (l @ ascii '':'' @ SEP opts @ b))"
    using Cons.hyps(1) lb by (simp add: section_text_labelled)
  then show ?case
    using Cons.IH [of "ts @ [l @ ascii '':'' @ SEP opts @ b]"] lb by simp
qed

lemma abstract_text_multi:
  assumes "findall ''AbstractText'' a = ats" "2 \<le> length ats"
  shows "abstract_text db opts p (Some a) =
     (case section_loop db opts p ats
             (if verbose opts then [Note_multiple_AbstractTexts p] else [], []) of
        (ms, sectionTexts) \<Rightarrow> (ms, Inr (Some (join (SEP opts) sectionTexts))))"
proof -
  obtain x y zs where "ats = x # y # zs"
    using assms(2) by (cases ats; cases "tl ats") auto
  then show ?thesis
    using assms(1) by (simp add: abstract_text_def)
qed

subsection \<open>Structured abstracts\<close>

text \<open>
  Claim C1, as amended. When the chosen abstract block has two or more
  \<^verbatim>\<open>AbstractText\<close> segments, each with a \<^verbatim>\<open>Label\<close> attribute \<open>l\<close> and a body
  \<open>b\<close> that is present and that \<^verbatim>\<open>strip()\<close> does not empty (it is not white space
  only, Unicode white space included when the body is not all ASCII), the assembled
  abstract text is the contributions \<open>l + ":" + SEP + b\<close> in document order, joined by
  \<open>SEP\<close>; \<open>SEP\<close> is a single space in single-line mode and a newline otherwise.
\<close>

theorem structured_abstract_join:
  assumes "findall ''AbstractText'' a = ats"
    and "2 \<le> length ats"
    and "list_all2 (\<lambda>at (l, b). attrib at ''Label'' = Some l \<and> text_of at = Some b \<and> strip db b \<noteq> []) ats lbs"
  shows "snd (abstract_text db opts p (Some a)) =
           Inr (Some (join (SEP opts) (map (\<lambda>(l, b). l @ ascii '':'' @ SEP opts @ b) lbs)))
         \<and> SEP opts = (if single_line_abstract opts then [0x20] else [0x0A])"
  using abstract_text_multi [OF assms(1,2)] section_loop_labelled [OF assms(3)]
  by (simp add: SEP_def NL_def ascii_def)

theorem structured_abstract_join_witness:
  "snd (abstract_text sample_db (default_options\<lparr>single_line_abstract := True\<rparr>)
         (Some (ascii ''1''))
         (Some (node ''Abstract'' None
            [labelled ''BACKGROUND'' (Some ''Cells divide.''),
             labelled ''METHODS'' (Some ''We counted.'')])))
     = Inr (Some (ascii ''BACKGROUND: Cells divide. METHODS: We counted.''))
   \<and> snd (abstract_text sample_db default_options (Some (ascii ''1''))
         (Some (node ''Abstract'' None
            [labelled ''BACKGROUND'' (Some ''Cells divide.''),
             labelled ''METHODS'' (Some ''We counted.'')])))
     = Inr (Some (ascii ''BACKGROUND:'' @ NL @ ascii ''Cells divide.'' @ NL @
                  ascii ''METHODS:'' @ NL @ ascii ''We counted.''))"
proof -
  let ?a = "node ''Abstract'' None
            [labelled ''BACKGROUND'' (Some ''Cells divide.''),
             labelled ''METHODS'' (Some ''We counted.'')]"
  let ?ats = "[labelled ''BACKGROUND'' (Some ''Cells divide.''),
               labelled ''METHODS'' (Some ''We counted.'')]"
  let ?lbs = "[(ascii ''BACKGROUND'', ascii ''Cells divide.''),
               (ascii ''METHODS'', ascii ''We counted.'')]"
  have f: "findall ''AbstractText'' ?a = ?ats"
    by (simp add: findall_def node_def labelled_def)
  have n: "2 \<le> length ?ats" by simp
  have l: "list_all2 (\<lambda>at (l, b). attrib at ''Label'' = Some l \<and> text_of at = Some b
             \<and> strip sample_db b \<noteq> []) ?ats ?lbs"
    by (simp add: labelled_def strip_def whitespace_def is_str_def isspace_def ascii_def)
  show ?thesis
    using structured_abstract_join [OF f n l,
        where opts = "default_options\<lparr>single_line_abstract := True\<rparr>" and p = "Some (ascii ''1'')"]
      structured_abstract_join [OF f n l, where opts = default_options and p = "Some (ascii ''1'')"]
    by (simp add: default_options_def ascii_def NL_def)
qed

text \<open>
  Claim C1 as stated asks only for a non-empty body. A body of one space is not empty,
  yet the segment contributes its label alone: the code tests the body after
  \<^verbatim>\<open>strip()\<close>.
\<close>

theorem whitespace_body_counterexample:
  "snd (abstract_text sample_db default_options (Some (ascii ''1''))
         (Some (node ''Abstract'' None
            [labelled ''A'' (Some '' ''), labelled ''B'' (Some ''x'')])))
     = Inr (Some (ascii ''A:'' @ NL @ ascii ''B:'' @ NL @ ascii ''x''))
   \<and> snd (abstract_text sample_db default_options (Some (ascii ''1''))
         (Some (node ''Abstract'' None
            [labelled ''A'' (Some '' ''), labelled ''B'' (Some ''x'')])))
     \<noteq> Inr (Some (join NL [ascii ''A:'' @ NL @ ascii '' '', ascii ''B:'' @ NL @ ascii ''x'']))"
  by (simp add: abstract_text_def findall_def node_def labelled_def section_text_def
      blank_def strip_def whitespace_def is_str_def isspace_def ascii_def SEP_def NL_def
      default_options_def)

text \<open>
  The same holds for a body of Unicode white space, here a no-break space: the text is a
  \<^verbatim>\<open>unicode\<close> object and \<^verbatim>\<open>strip()\<close> empties it.
\<close>

lemma no_break_space_body:
  "section_text sample_db default_options (Some (ascii ''1''))
     (Element ''AbstractText'' [''Label'' \<mapsto> ascii ''A''] (Some [0xA0]) [])
   = ([Note_empty_text (Some (ascii ''1''))], Some (ascii ''A:''))"
  by (simp add: section_text_def blank_def strip_def whitespace_def is_str_def sample_db_def
      ascii_def)

lemma section_text_unlabelled:
  assumes "blank db (text_of at)" "attrib at ''Label'' = Some (ascii ''UNLABELLED'')"
  shows "section_text db opts p at = (if verbose opts then [Note_skipping_UNLABELLED p] else [], None)"
  using assms by (simp add: section_text_def)

lemma section_loop_skip:
  assumes "section_text db opts p at = (ms, None)"
  shows "section_loop db opts p (pre @ at # post) acc =
     (fst acc @ fst (section_loop db opts p pre ([], [])) @ ms @ fst (section_loop db opts p post ([], [])),
      snd acc @ snd (section_loop db opts p pre ([], [])) @ snd (section_loop db opts p post ([], [])))"
proof -
  obtain ms0 ts0 where acc: "acc = (ms0, ts0)" by (cases acc)
  obtain ms1 ts1 where pre: "section_loop db opts p pre ([], []) = (ms1, ts1)"
    by (cases "section_loop db opts p pre ([], [])")
  obtain ms2 ts2 where post: "section_loop db opts p post ([], []) = (ms2, ts2)"
    by (cases "section_loop db opts p post ([], [])")
  have 1: "section_loop db opts p pre (ms0, ts0) = (ms0 @ ms1, ts0 @ ts1)"
    using section_loop_acc [of db opts p pre ms0 ts0] pre by simp
  have 2: "section_loop db opts p post ((ms0 @ ms1) @ ms, ts0 @ ts1) = (((ms0 @ ms1) @ ms) @ ms2, (ts0 @ ts1) @ ts2)"
    using section_loop_acc [of db opts p post "(ms0 @ ms1) @ ms" "ts0 @ ts1"] post by simp
  show ?thesis
    unfolding acc section_loop_append 1 using assms 2 pre post by simp
qed

lemma section_loop_snd_append:
  "snd (section_loop db opts p (xs @ ys) ([], [])) =
     snd (section_loop db opts p xs ([], [])) @ snd (section_loop db opts p ys ([], []))"
proof -
  obtain ms ts where xs: "section_loop db opts p xs ([], []) = (ms, ts)"
    by (cases "section_loop db opts p xs ([], [])")
  show ?thesis
    unfolding section_loop_append xs using section_loop_acc [of db opts p ys ms ts] by simp
qed

text \<open>
  Claim C3. In a structured abstract (two or more segments), a segment whose body is
  missing or white space only (what \<^verbatim>\<open>strip()\<close> removes from a string of its kind,
  Unicode white space included) and whose label is \<^verbatim>\<open>UNLABELLED\<close> adds nothing to the
  section texts: the assembled text is the join of what the other segments contribute,
  with no empty entry and no extra separator. The only message of that segment is the
  note printed in verbose mode.
\<close>

theorem unlabelled_empty_segment_dropped:
  assumes "case text_of at of None \<Rightarrow> True | Some body \<Rightarrow> list_all (whitespace db body) body"
    and "attrib at ''Label'' = Some (ascii ''UNLABELLED'')"
    and "findall ''AbstractText'' a = pre @ at # post"
    and "pre @ post \<noteq> []"
  shows "section_text db opts p at = (if verbose opts then [Note_skipping_UNLABELLED p] else [], None)
       \<and> snd (abstract_text db opts p (Some a)) =
           Inr (Some (join (SEP opts) (snd (section_loop db opts p (pre @ post) ([], [])))))
       \<and> fst (abstract_text db opts p (Some a)) =
           (if verbose opts then [Note_multiple_AbstractTexts p] else [])
           @ fst (section_loop db opts p pre ([], []))
           @ (if verbose opts then [Note_skipping_UNLABELLED p] else [])
           @ fst (section_loop db opts p post ([], []))"
proof -
  have b: "blank db (text_of at)"
    using assms(1) by (simp add: blank_iff)
  have st: "section_text db opts p at = (if verbose opts then [Note_skipping_UNLABELLED p] else [], None)"
    using b assms(2) by (rule section_text_unlabelled)
  have len: "2 \<le> length (pre @ at # post)"
    using assms(4) by (cases pre; cases post) simp_all
  have at: "abstract_text db opts p (Some a) =
     (case section_loop db opts p (pre @ at # post)
             (if verbose opts then [Note_multiple_AbstractTexts p] else [], []) of
        (ms, sectionTexts) \<Rightarrow> (ms, Inr (Some (join (SEP opts) sectionTexts))))"
    using assms(3) len by (rule abstract_text_multi)
  show ?thesis
    unfolding at section_loop_skip [OF st] section_loop_snd_append
    using st by simp
qed

theorem unlabelled_empty_segment_dropped_witness:
  "abstract_text sample_db default_options (Some (ascii ''20619000''))
     (Some (node ''Abstract'' None
        [labelled ''AIM'' (Some ''x''),
         Element ''AbstractText'' [''Label'' \<mapsto> ascii ''UNLABELLED''] (Some [0x20, 0xA0, 0x2009]) [],
         labelled ''RESULTS'' (Some ''y'')]))
   = ([], Inr (Some (ascii ''AIM:'' @ NL @ ascii ''x'' @ NL @ ascii ''RESULTS:'' @ NL @ ascii ''y'')))"
proof -
  let ?at = "Element ''AbstractText'' [''Label'' \<mapsto> ascii ''UNLABELLED'']
               (Some [0x20, 0xA0, 0x2009]) []"
  let ?pre = "[labelled ''AIM'' (Some ''x'')]"
  let ?post = "[labelled ''RESULTS'' (Some ''y'')]"
  let ?a = "node ''Abstract'' None (?pre @ ?at # ?post)"
  let ?p = "Some (ascii ''20619000'')"
  have 1: "case text_of ?at of None \<Rightarrow> True
           | Some body \<Rightarrow> list_all (whitespace sample_db body) body"
    by (simp add: whitespace_def is_str_def sample_db_def)
  have 2: "attrib ?at ''Label'' = Some (ascii ''UNLABELLED'')"
    by simp
  have 3: "findall ''AbstractText'' ?a = ?pre @ ?at # ?post"
    by (simp add: findall_def node_def labelled_def)
  have 4: "?pre @ ?post \<noteq> []" by simp
  have "fst (abstract_text sample_db default_options ?p (Some ?a)) = []
    \<and> snd (abstract_text sample_db default_options ?p (Some ?a))
        = Inr (Some (ascii ''AIM:'' @ NL @ ascii ''x'' @ NL @ ascii ''RESULTS:'' @ NL @ ascii ''y''))"
    using unlabelled_empty_segment_dropped [OF 1 2 3 4, where opts = default_options and p = ?p]
    by (simp add: default_options_def section_text_def blank_def strip_def whitespace_def
        is_str_def isspace_def ascii_def labelled_def SEP_def NL_def)
  then show ?thesis
    by (simp add: prod_eq_iff)
qed

subsection \<open>Unstructured abstracts\<close>

text \<open>
  Claim C4. When the chosen abstract block has exactly one \<^verbatim>\<open>AbstractText\<close> segment,
  the assembled abstract text is that segment's body as it is, \<^verbatim>\<open>None\<close> and the empty
  string included: no label, no separator, no message and no exception.
\<close>

theorem single_segment_verbatim:
  assumes "findall ''AbstractText'' a = [abstractText]"
  shows "abstract_text db opts p (Some a) = ([], Inr (text_of abstractText))"
  using assms by (simp add: abstract_text_def)

theorem single_segment_verbatim_witness:
  "abstract_text sample_db default_options (Some (ascii ''1''))
     (Some (node ''Abstract'' None [labelled ''BACKGROUND'' None])) = ([], Inr None)
   \<and> abstract_text sample_db default_options (Some (ascii ''1''))
     (Some (node ''OtherAbstract'' None [labelled ''BACKGROUND'' (Some '' Text. '')]))
       = ([], Inr (Some (ascii '' Text. '')))"
proof -
  have 1: "findall ''AbstractText'' (node ''Abstract'' None [labelled ''BACKGROUND'' None])
           = [labelled ''BACKGROUND'' None]"
    by (simp add: findall_def node_def labelled_def)
  have 2: "findall ''AbstractText''
             (node ''OtherAbstract'' None [labelled ''BACKGROUND'' (Some '' Text. '')])
           = [labelled ''BACKGROUND'' (Some '' Text. '')]"
    by (simp add: findall_def node_def labelled_def)
  show ?thesis
    using single_segment_verbatim [OF 1, where opts = default_options and p = "Some (ascii ''1'')"
          and db = sample_db]
      single_segment_verbatim [OF 2, where opts = default_options and p = "Some (ascii ''1'')"
          and db = sample_db]
    by (simp add: labelled_def)
qed

subsection \<open>One citation: the phases of the loop body\<close>



lemma limit_note_Some: "limit_note t (Some l) = Inl TypeError"
  by (cases t) (simp_all add: limit_note_def text_value_def)

lemma out_of_range_int:
  assumes "py_int db t = Inr i"
  shows "out_of_range db opts t =
     Inr ((case PMID_greater_than opts of None \<Rightarrow> False | Some gt \<Rightarrow> i \<le> gt)
          \<or> (case PMID_lower_than opts of None \<Rightarrow> False | Some lt \<Rightarrow> i \<ge> lt))"
  using assms by (simp add: out_of_range_def split: option.splits)


lemma out_of_range_True_bound:
  assumes "out_of_range db opts t = Inr True"
  shows "PMID_greater_than opts \<noteq> None \<or> PMID_lower_than opts \<noteq> None"
  using assms
  by (cases "PMID_greater_than opts"; cases "PMID_lower_than opts")
     (simp_all add: out_of_range_def)

lemma skip_notes_quiet: "\<not> verbose opts \<Longrightarrow> skip_notes opts t = ([], Inr ())"
  by (simp add: skip_notes_def)

lemma skip_notes_verbose:
  assumes "verbose opts" "PMID_greater_than opts \<noteq> None \<or> PMID_lower_than opts \<noteq> None"
  shows "skip_notes opts t = ([Note_skipping], Inl TypeError)"
proof (cases "PMID_greater_than opts")
  case None
  then obtain lt where "PMID_lower_than opts = Some lt"
    using assms(2) by auto
  then show ?thesis
    using assms(1) None by (simp add: skip_notes_def limit_note_Some) (simp add: limit_note_def)
next
  case (Some gt)
  then show ?thesis
    using assms(1) by (simp add: skip_notes_def limit_note_Some)
qed

lemma process_citation_PMIDs:
  assumes "findall ''PMID'' c = ps" "length ps \<noteq> 1"
  shows "process_citation db opts d c st = (Some (AssertionError (Expected_1_PMID (length ps))), st)"
proof (cases ps)
  case Nil
  then show ?thesis using assms(1) by (simp add: process_citation_def)
next
  case (Cons x xs)
  then obtain y ys where "xs = y # ys"
    using assms(2) by (cases xs) auto
  then show ?thesis using assms(1) Cons by (simp add: process_citation_def)
qed

lemma process_citation_filter_error:
  assumes "findall ''PMID'' c = [pmid]" "out_of_range db opts (text_of pmid) = Inl e"
  shows "process_citation db opts d c st = (Some e, st)"
  using assms by (simp add: process_citation_def)

lemma process_citation_skip_quiet:
  assumes "findall ''PMID'' c = [pmid]" "out_of_range db opts (text_of pmid) = Inr True"
    "\<not> verbose opts"
  shows "process_citation db opts d c st = (None, st\<lparr>skipped_count := skipped_count st + 1\<rparr>)"
  using assms by (simp add: process_citation_def skip_notes_quiet print_stderr_def)

lemma process_citation_skip_verbose:
  assumes "findall ''PMID'' c = [pmid]" "out_of_range db opts (text_of pmid) = Inr True"
    "verbose opts"
  shows "process_citation db opts d c st = (Some TypeError, st\<lparr>stderr := stderr st @ [Note_skipping]\<rparr>)"
  using assms skip_notes_verbose [OF assms(3) out_of_range_True_bound [OF assms(2)]]
  by (simp add: process_citation_def print_stderr_def)

lemma process_citation_Articles:
  assumes "findall ''PMID'' c = [pmid]" "out_of_range db opts (text_of pmid) = Inr False"
    "findall ''Article'' c = articles" "length articles \<noteq> 1"
  shows "process_citation db opts d c st =
     (Some (AssertionError (Articles_for_PMID (length articles) (text_of pmid))), st)"
proof (cases articles)
  case Nil
  then show ?thesis using assms(1,2,3) by (simp add: process_citation_def)
next
  case (Cons x xs)
  then obtain y ys where "xs = y # ys"
    using assms(4) by (cases xs) auto
  then show ?thesis using assms(1,2,3) Cons by (simp add: process_citation_def)
qed

lemma process_citation_Titles:
  assumes "findall ''PMID'' c = [pmid]" "out_of_range db opts (text_of pmid) = Inr False"
    "findall ''Article'' c = [article]" "findall ''ArticleTitle'' article = ts" "length ts \<noteq> 1"
  shows "process_citation db opts d c st = (Some TypeError, st)"
proof (cases ts)
  case Nil
  then show ?thesis using assms(1,2,3,4) by (simp add: process_citation_def)
next
  case (Cons x xs)
  then obtain y ys where "xs = y # ys"
    using assms(5) by (cases xs) auto
  then show ?thesis using assms(1,2,3,4) Cons by (simp add: process_citation_def)
qed

lemma choose_abstract_many:
  assumes "findall ''Abstract'' article = abstracts" "1 < length abstracts"
  shows "choose_abstract opts c article p = ([], Inl TypeError)"
proof -
  obtain x y zs where "abstracts = x # y # zs"
    using assms(2) by (cases abstracts; cases "tl abstracts") auto
  then show ?thesis using assms(1) by (simp add: choose_abstract_def)
qed

lemma process_citation_in_range:
  assumes "findall ''PMID'' c = [pmid]" "out_of_range db opts (text_of pmid) = Inr False"
    "findall ''Article'' c = [article]" "findall ''ArticleTitle'' article = [title]"
  shows "process_citation db opts d c st =
     (case choose_abstract opts c article (text_of pmid) of
        (ms1, Inl e) \<Rightarrow> (Some e, print_stderr ms1 st)
      | (ms1, Inr abstract) \<Rightarrow>
          (case abstract_text db opts (text_of pmid) abstract of
             (ms2, Inl e) \<Rightarrow> (Some e, print_stderr (ms1 @ ms2) st)
           | (ms2, Inr textAbstract) \<Rightarrow>
               emit opts d (text_of pmid) (text_of title) textAbstract (print_stderr (ms1 @ ms2) st)))"
  using assms by (simp add: process_citation_def)

lemma process_citation_Abstracts:
  assumes "findall ''PMID'' c = [pmid]" "out_of_range db opts (text_of pmid) = Inr False"
    "findall ''Article'' c = [article]" "findall ''ArticleTitle'' article = [title]"
    "findall ''Abstract'' article = abstracts" "1 < length abstracts"
  shows "process_citation db opts d c st = (Some TypeError, st)"
  using process_citation_in_range [OF assms(1-4)] choose_abstract_many [OF assms(5,6)]
  by (simp add: print_stderr_def)

lemma abstract_text_no_segments:
  assumes "findall ''AbstractText'' a = []"
  shows "abstract_text db opts p (Some a) = ([], Inl (AssertionError (Abstract_texts_for_PMID 0 p)))"
  using assms by (simp add: abstract_text_def)

lemma emit_ok:
  assumes "match_digits p"
  shows "emit opts d (Some p) (Some title) ta st =
    (None, st\<lparr>files := (files st)(path_join d (p @ ascii ''.txt'') \<mapsto>
                  encode_utf8 title @ [CHR 0x0A] @
                  (case ta of None \<Rightarrow> [] | Some a \<Rightarrow> if a = [] then [] else encode_utf8 a @ [CHR 0x0A])),
              stderr := stderr st @
                (if (case ta of None \<Rightarrow> False | Some a \<Rightarrow> a \<noteq> []) then []
                 else if verbose opts then [No_abstract p] else []),
              output_count := output_count st + 1\<rparr>)"
  using assms by (simp add: emit_def Let_def)

lemma emit_counts:
  assumes "emit opts d tp tt ta st = (r, st')" "output_count st' \<noteq> output_count st"
  shows "\<exists>p title. tp = Some p \<and> tt = Some title \<and> match_digits p \<and> r = None"
proof (cases tp)
  case None
  then show ?thesis using assms by (simp add: emit_def)
next
  case p: (Some p)
  show ?thesis
  proof (cases "match_digits p")
    case False
    then show ?thesis using assms p by (simp add: emit_def)
  next
    case True
    show ?thesis
    proof (cases tt)
      case None
      then show ?thesis using assms p True by (auto simp: emit_def Let_def)
    next
      case (Some title)
      then show ?thesis using assms p True by (auto simp: emit_def Let_def)
    qed
  qed
qed








subsection \<open>Identifier conversion and the numeric assertion\<close>




subsection \<open>The output file\<close>

text \<open>
  Claim C7. For every emitted record (the citation is processed without an exception
  and the output counter moves), the file \<^verbatim>\<open>os.path.join(outputDir, PMID + ".txt")\<close>,
  where \<^verbatim>\<open>outputDir\<close> is the output directory joined with the package name, holds the
  title text (in UTF-8) and a newline, followed by the assembled abstract text (in
  UTF-8) and a newline exactly when that text is non-empty. With title \<^verbatim>\<open>T\<close> and abstract \<^verbatim>\<open>A\nB\<close> the
  file is the three lines \<^verbatim>\<open>T\<close>, \<^verbatim>\<open>A\<close>, \<^verbatim>\<open>B\<close>.
\<close>

theorem emitted_file_content:
  assumes "process_citation db opts d c st = (None, st')"
    and "output_count st' \<noteq> output_count st"
  shows "\<exists>pmid p article titleElement title ms1 abstract ms2 textAbstract.
           findall ''PMID'' c = [pmid] \<and> text_of pmid = Some p
         \<and> findall ''Article'' c = [article]
         \<and> findall ''ArticleTitle'' article = [titleElement] \<and> text_of titleElement = Some title
         \<and> choose_abstract opts c article (Some p) = (ms1, Inr abstract)
         \<and> abstract_text db opts (Some p) abstract = (ms2, Inr textAbstract)
         \<and> files st' (path_join d (p @ ascii ''.txt'')) =
               Some (encode_utf8 title @ [CHR 0x0A] @
                 (case textAbstract of
                    None \<Rightarrow> []
                  | Some a \<Rightarrow> if a = [] then [] else encode_utf8 a @ [CHR 0x0A]))
         \<and> output_count st' = output_count st + 1"
proof -
  have one: "length (findall ''PMID'' c) = 1"
    using assms(1) process_citation_PMIDs [OF refl, where c = c and db = db and opts = opts and d = d and st = st]
    by (cases "length (findall ''PMID'' c) = 1") auto
  then obtain pmid where pm: "findall ''PMID'' c = [pmid]"
    by (cases "findall ''PMID'' c") auto
  have oor: "out_of_range db opts (text_of pmid) = Inr False"
  proof (cases "out_of_range db opts (text_of pmid)")
    case (Inl e)
    then show ?thesis
      using assms(1) process_citation_filter_error [OF pm Inl, where d = d and st = st] by simp
  next
    case (Inr b)
    show ?thesis
    proof (cases b)
      case True
      then show ?thesis
        using assms Inr process_citation_skip_quiet [OF pm, where db = db and opts = opts and d = d and st = st]
          process_citation_skip_verbose [OF pm, where db = db and opts = opts and d = d and st = st]
        by (cases "verbose opts") auto
    next
      case False
      then show ?thesis using Inr by simp
    qed
  qed
  have "length (findall ''Article'' c) = 1"
    using assms(1) process_citation_Articles [OF pm oor refl, where d = d and st = st]
    by (cases "length (findall ''Article'' c) = 1") auto
  then obtain article where ar: "findall ''Article'' c = [article]"
    by (cases "findall ''Article'' c") auto
  have "length (findall ''ArticleTitle'' article) = 1"
    using assms(1) process_citation_Titles [OF pm oor ar refl, where d = d and st = st]
    by (cases "length (findall ''ArticleTitle'' article) = 1") auto
  then obtain titleElement where ti: "findall ''ArticleTitle'' article = [titleElement]"
    by (cases "findall ''ArticleTitle'' article") auto
  note pc = process_citation_in_range [OF pm oor ar ti, where d = d and st = st]
  obtain ms1 r1 where ca: "choose_abstract opts c article (text_of pmid) = (ms1, r1)"
    by (cases "choose_abstract opts c article (text_of pmid)")
  obtain abstract where r1: "r1 = Inr abstract"
    using assms(1) pc ca by (cases r1) auto
  obtain ms2 r2 where at: "abstract_text db opts (text_of pmid) abstract = (ms2, r2)"
    by (cases "abstract_text db opts (text_of pmid) abstract")
  obtain textAbstract where r2: "r2 = Inr textAbstract"
    using assms(1) pc ca r1 at by (cases r2) auto
  have em: "emit opts d (text_of pmid) (text_of titleElement) textAbstract
              (print_stderr (ms1 @ ms2) st) = (None, st')"
    using assms(1) pc ca r1 at r2 by simp
  have "output_count st' \<noteq> output_count (print_stderr (ms1 @ ms2) st)"
    using assms(2) by (simp add: print_stderr_def)
  from emit_counts [OF em this]
  obtain p title where tp: "text_of pmid = Some p" and tt: "text_of titleElement = Some title"
    and md: "match_digits p"
    by blast
  have "st' = snd (emit opts d (Some p) (Some title) textAbstract (print_stderr (ms1 @ ms2) st))"
    using em tp tt by simp
  then have "files st' (path_join d (p @ ascii ''.txt'')) =
               Some (encode_utf8 title @ [CHR 0x0A] @
                 (case textAbstract of
                    None \<Rightarrow> []
                  | Some a \<Rightarrow> if a = [] then [] else encode_utf8 a @ [CHR 0x0A]))"
    and "output_count st' = output_count st + 1"
    unfolding emit_ok [OF md] by (simp_all add: print_stderr_def)
  then show ?thesis
    using pm tp ar ti tt ca r1 at r2 by auto
qed

theorem emitted_file_content_witness:
  "fst (process_citation sample_db default_options
     (path_join (output_dir default_options) (ascii ''medline12n0001''))
     (node ''MedlineCitation'' None
        [node ''PMID'' (Some ''150'') [],
         node ''Article'' None
           [node ''ArticleTitle'' (Some ''T'') [],
            node ''Abstract'' None
              [node ''AbstractText'' (Some [CHR ''A'', CHR 0x0A, CHR ''B'']) []]]])
     initial_state) = None
   \<and> files (snd (process_citation sample_db default_options
       (path_join (output_dir default_options) (ascii ''medline12n0001''))
       (node ''MedlineCitation'' None
        [node ''PMID'' (Some ''150'') [],
         node ''Article'' None
           [node ''ArticleTitle'' (Some ''T'') [],
            node ''Abstract'' None
              [node ''AbstractText'' (Some [CHR ''A'', CHR 0x0A, CHR ''B'']) []]]])
       initial_state))
      (ascii ''texts/medline12n0001/150.txt'')
     = Some (''T'' @ [CHR 0x0A] @ ''A'' @ [CHR 0x0A] @ ''B'' @ [CHR 0x0A])"
proof -
  let ?d = "path_join (output_dir default_options) (ascii ''medline12n0001'')"
  let ?c = "node ''MedlineCitation'' None
        [node ''PMID'' (Some ''150'') [],
         node ''Article'' None
           [node ''ArticleTitle'' (Some ''T'') [],
            node ''Abstract'' None
              [node ''AbstractText'' (Some [CHR ''A'', CHR 0x0A, CHR ''B'']) []]]]"
  let ?st = "initial_state\<lparr>files := (files initial_state)
                (ascii ''texts/medline12n0001/150.txt'' \<mapsto>
                   ''T'' @ [CHR 0x0A] @ ''A'' @ [CHR 0x0A] @ ''B'' @ [CHR 0x0A]),
              stderr := [], output_count := 1\<rparr>"
  have m: "match_digits (ascii ''150'')"
    by (simp add: match_digits_def isdigit_def ascii_def)
  have d: "?d = ascii ''texts/medline12n0001''"
    by (simp add: path_join_def default_options_def ascii_def)
  have f: "path_join (ascii ''texts/medline12n0001'') (ascii ''150'' @ ascii ''.txt'')
           = ascii ''texts/medline12n0001/150.txt''"
    by (simp add: path_join_def ascii_def)
  have t: "encode_utf8 (ascii ''T'') = ''T''"
    and a: "encode_utf8 (ascii [CHR ''A'', CHR 0x0A, CHR ''B'']) = ''A'' @ [CHR 0x0A] @ ''B''"
    and n: "ascii [CHR ''A'', CHR 0x0A, CHR ''B''] \<noteq> []"
    by (simp_all add: ascii_def encode_utf8_def utf8_def char_of_def bit_0)
  have h1: "process_citation sample_db default_options ?d ?c initial_state = (None, ?st)"
    unfolding d
    by (simp add: process_citation_def findall_def node_def out_of_range_def
        choose_abstract_def abstract_text_def emit_def m f t a n print_stderr_def
        default_options_def initial_state_def)
  have h2: "output_count ?st \<noteq> output_count initial_state"
    by (simp add: initial_state_def)
  from emitted_file_content [OF h1 h2]
  obtain p title textAbstract where
    "files ?st (path_join ?d (p @ ascii ''.txt'')) =
       Some (encode_utf8 title @ [CHR 0x0A] @
         (case textAbstract of None \<Rightarrow> [] | Some a \<Rightarrow> if a = [] then [] else encode_utf8 a @ [CHR 0x0A]))"
    by blast
  then show ?thesis
    using h1 by (simp add: d)
qed

text \<open>A title with a non-ASCII letter is written as its UTF-8 bytes.\<close>

lemma utf8_title_example:
  "emit default_options (ascii ''texts/medline12n0001'') (Some (ascii ''7''))
     (Some [0x43, 0x61, 0x66, 0xE9]) (Some []) initial_state
   = (None, initial_state\<lparr>files := [ascii ''texts/medline12n0001/7.txt'' \<mapsto>
                                       [CHR ''C'', CHR ''a'', CHR ''f'', CHR 0xC3, CHR 0xA9, CHR 0x0A]],
                           output_count := 1\<rparr>)"
proof -
  have m: "match_digits (ascii ''7'')"
    by (simp add: match_digits_def isdigit_def ascii_def)
  have f: "path_join (ascii ''texts/medline12n0001'') (ascii ''7'' @ ascii ''.txt'')
           = ascii ''texts/medline12n0001/7.txt''"
    by (simp add: path_join_def ascii_def)
  have t: "encode_utf8 [0x43, 0x61, 0x66, 0xE9] = [CHR ''C'', CHR ''a'', CHR ''f'', CHR 0xC3, CHR 0xA9]"
    by (simp add: encode_utf8_def utf8_def char_of_def bit_0)
  show ?thesis
    by (simp add: emit_def m f t default_options_def initial_state_def)
qed

subsection \<open>The source of the abstract\<close>






subsection \<open>The range filter\<close>

text \<open>
  Outside verbose mode an out-of-range citation is counted and left behind, whatever
  its other children are, and the loop goes on with the next citation. A citation
  strictly inside the configured bounds passes the filter.
\<close>

lemma range_filter_quiet:
  assumes "\<not> verbose opts" and "findall ''PMID'' c = [pmid]"
    and "py_int db (text_of pmid) = Inr i"
    and "(case PMID_greater_than opts of None \<Rightarrow> False | Some gt \<Rightarrow> i \<le> gt)
          \<or> (case PMID_lower_than opts of None \<Rightarrow> False | Some lt \<Rightarrow> i \<ge> lt)"
  shows "process_citation db opts d c st = (None, st\<lparr>skipped_count := skipped_count st + 1\<rparr>)"
proof -
  have "out_of_range db opts (text_of pmid) = Inr True"
    using out_of_range_int [OF assms(3), where opts = opts] assms(4) by simp
  then show ?thesis
    using process_citation_skip_quiet [OF assms(2) _ assms(1), where d = d and st = st] by simp
qed

lemma range_filter_inside:
  assumes "py_int db t = Inr i"
    and "case PMID_greater_than opts of None \<Rightarrow> True | Some gt \<Rightarrow> gt < i"
    and "case PMID_lower_than opts of None \<Rightarrow> True | Some lt \<Rightarrow> i < lt"
  shows "out_of_range db opts t = Inr False"
  using out_of_range_int [OF assms(1), where opts = opts] assms(2,3)
  by (simp split: option.splits)

lemma process_citations_skip_quiet:
  assumes "findall ''PMID'' c = [pmid]" "out_of_range db opts (text_of pmid) = Inr True"
    "\<not> verbose opts"
  shows "process_citations db opts d (c # rest) st =
     process_citations db opts d rest (st\<lparr>skipped_count := skipped_count st + 1\<rparr>)"
  using process_citation_skip_quiet [OF assms, where d = d and st = st] by simp

lemma skip_ignores_other_children:
  assumes "findall ''PMID'' c = [pmid]" "findall ''PMID'' c' = [pmid]"
    "out_of_range db opts (text_of pmid) = Inr True"
  shows "process_citation db opts d c st = process_citation db opts d c' st"
proof (cases "verbose opts")
  case True
  show ?thesis
    using process_citation_skip_verbose [OF assms(1,3) True, where d = d and st = st]
      process_citation_skip_verbose [OF assms(2,3) True, where d = d and st = st] by simp
next
  case False
  show ?thesis
    using process_citation_skip_quiet [OF assms(1,3) False, where d = d and st = st]
      process_citation_skip_quiet [OF assms(2,3) False, where d = d and st = st] by simp
qed

lemma range_filter_quiet_example:
  "process_citations sample_db (default_options\<lparr>PMID_greater_than := Some 100, PMID_lower_than := Some 200\<rparr>)
     (ascii ''texts/medline12n0001'')
     [node ''MedlineCitation'' None [node ''PMID'' (Some ''100'') []],
      node ''MedlineCitation'' None
        [node ''PMID'' (Some ''150'') [],
         node ''Article'' None [node ''ArticleTitle'' (Some ''T'') []]],
      node ''MedlineCitation'' None [node ''PMID'' (Some ''200'') []]]
     initial_state
   = (None, \<lparr>output_count = 1, skipped_count = 2,
              files = [ascii ''texts/medline12n0001/150.txt'' \<mapsto> ''T'' @ [CHR 0x0A]], stderr = []\<rparr>)"
  by (simp add: process_citation_def findall_def node_def out_of_range_def py_int_def
      int_from_string_def is_str_def ascii_def isspace_def isdigit_def decimal_def
      skip_notes_def print_stderr_def choose_abstract_def abstract_text_def emit_def
      match_digits_def path_join_def encode_utf8_def utf8_def char_of_def bit_0
      default_options_def initial_state_def)

text \<open>
  Claim C2 (violated in verbose mode). A citation at or beyond a configured bound is to
  be skipped and counted. In verbose mode the note on the limit (line 105) gives the
  one-conversion format \<^verbatim>\<open>"(lower limit %d)"\<close> the tuple
  \<^verbatim>\<open>(PMID.text, options.PMID_greater_than)\<close>, which raises TypeError before
  \<^verbatim>\<open>skipped_count\<close> is incremented: with bounds 100 and 200, citation 100 ends the
  run with both counters unchanged.
\<close>

theorem verbose_skip_raises:
  "process_citation sample_db
     (default_options\<lparr>PMID_greater_than := Some 100, PMID_lower_than := Some 200, verbose := True\<rparr>)
     (ascii ''texts/medline12n0001'')
     (node ''MedlineCitation'' None [node ''PMID'' (Some ''100'') []])
     initial_state
   = (Some TypeError, initial_state\<lparr>stderr := [Note_skipping]\<rparr>)"
  by (simp add: process_citation_def findall_def node_def out_of_range_def py_int_def
      int_from_string_def is_str_def ascii_def isspace_def isdigit_def decimal_def
      skip_notes_def limit_note_def text_value_def print_stderr_def default_options_def
      initial_state_def)

text \<open>
  Claim C8 (violated in verbose mode). An out-of-range identifier is to be a
  recoverable condition. In verbose mode, with the upper bound alone configured, the
  note on the limit (line 107) raises TypeError: the run stops at citation 300 and the
  citation after it, which is in range, is never written.
\<close>

theorem verbose_skip_stops_run:
  "process_citations sample_db
     (default_options\<lparr>PMID_lower_than := Some 200, verbose := True\<rparr>)
     (ascii ''texts/medline12n0001'')
     [node ''MedlineCitation'' None [node ''PMID'' (Some ''300'') []],
      node ''MedlineCitation'' None
        [node ''PMID'' (Some ''150'') [],
         node ''Article'' None [node ''ArticleTitle'' (Some ''T'') []]]]
     initial_state
   = (Some TypeError, initial_state\<lparr>stderr := [Note_skipping]\<rparr>)"
  by (simp add: process_citation_def findall_def node_def out_of_range_def py_int_def
      int_from_string_def is_str_def ascii_def isspace_def isdigit_def decimal_def
      skip_notes_def limit_note_def text_value_def print_stderr_def default_options_def
      initial_state_def)

text \<open>
  Claim C9 (violated in verbose mode). The filter does come before the Article, Title
  and Abstract checks, so the two Article children of an out-of-range citation are never
  counted; but in verbose mode the citation is not skipped either: the note on the limit
  raises TypeError and the run ends.
\<close>

theorem verbose_skip_two_articles:
  "process_citation sample_db
     (default_options\<lparr>PMID_greater_than := Some 100, verbose := True\<rparr>)
     (ascii ''texts/medline12n0001'')
     (node ''MedlineCitation'' None
        [node ''PMID'' (Some ''50'') [],
         node ''Article'' None [node ''ArticleTitle'' (Some ''T'') []],
         node ''Article'' None [node ''ArticleTitle'' (Some ''U'') []]])
     initial_state
   = (Some TypeError, initial_state\<lparr>stderr := [Note_skipping]\<rparr>)"
  by (simp add: process_citation_def findall_def node_def out_of_range_def py_int_def
      int_from_string_def is_str_def ascii_def isspace_def isdigit_def decimal_def
      skip_notes_def limit_note_def text_value_def print_stderr_def default_options_def
      initial_state_def)

subsection \<open>The cardinality assertions\<close>

text \<open>
  Each of the five conditions ends the processing of the citation before
  \<^verbatim>\<open>open\<close> is reached: see \<open>process_citation_PMIDs\<close>, \<open>process_citation_Articles\<close>,
  \<open>process_citation_Titles\<close>, \<open>process_citation_Abstracts\<close> and the fact below for
  a chosen block without segments.
\<close>

lemma process_citation_no_segments:
  assumes "findall ''PMID'' c = [pmid]" "out_of_range db opts (text_of pmid) = Inr False"
    "findall ''Article'' c = [article]" "findall ''ArticleTitle'' article = [title]"
    "choose_abstract opts c article (text_of pmid) = (ms, Inr (Some a))"
    "findall ''AbstractText'' a = []"
  shows "process_citation db opts d c st =
     (Some (AssertionError (Abstract_texts_for_PMID 0 (text_of pmid))), print_stderr ms st)"
  unfolding process_citation_in_range [OF assms(1-4)]
  using assms(5) abstract_text_no_segments [OF assms(6), where db = db and opts = opts and p = "text_of pmid"]
  by simp

text \<open>
  Claim C5 (violated for the Title and Abstract counts). A wrong number of
  \<^verbatim>\<open>ArticleTitle\<close> children is to end the run with a failed assertion. The message
  of that assertion (line 121) is \<^verbatim>\<open>"..." % (len(articleTitles, PMID.text))\<close>: when
  the assertion fails, building the message raises TypeError, where the sibling
  assertion on Article (line 116) raises AssertionError with the count and the
  identifier. The run ends and no file is written in both cases.
\<close>

theorem title_count_raises_TypeError:
  "process_citation sample_db default_options (ascii ''texts/medline12n0001'')
     (node ''MedlineCitation'' None
        [node ''PMID'' (Some ''17'') [], node ''Article'' None []])
     initial_state
   = (Some TypeError, initial_state)"
  by (simp add: process_citation_def findall_def node_def out_of_range_def
      default_options_def)

end
